theory Spec2Isabelle
  imports Complex_Main "HOL-Library.Multiset"
begin

section \<open>JavaScript values and plain objects\<close>

text \<open>
  The handlers of \<^verbatim>\<open>perkController.js\<close> receive JSON request bodies and hand plain
  objects to the validator and to the store. A value is one of the JSON scalars; \<open>JOther\<close>
  stands for every value that is neither a string nor a number (an array, a nested object,
  an ObjectId, a Date). A finite JavaScript number is modelled by a real: the code only
  compares numbers, it never computes with them. \<open>JNaN\<close> and \<open>JInfinity\<close> are the
  numbers that are not finite (\<open>JInfinity\<close> stands for both signs).

  An object is the list of its own properties in insertion order, which is the order
  \<^verbatim>\<open>Object.keys\<close> gives. Reading a property that is not there gives \<open>None\<close>
  (JavaScript's \<^verbatim>\<open>undefined\<close>).
\<close>

datatype jsvalue = JNull | JBool bool | JNum real | JNaN | JInfinity | JStr string | JOther

type_synonym jsobject = "(string \<times> jsvalue) list"

definition lookup :: "jsobject \<Rightarrow> string \<Rightarrow> jsvalue option" where
  "lookup obj k = map_of obj k"

definition obj_keys :: "jsobject \<Rightarrow> string list" where
  "obj_keys obj = map fst obj"

text \<open>\<^verbatim>\<open>obj[k] = v\<close>: an existing property keeps its place, a new one goes last.\<close>

fun assign :: "jsobject \<Rightarrow> string \<Rightarrow> jsvalue \<Rightarrow> jsobject" where
  "assign [] k v = [(k, v)]"
| "assign ((k', v') # rest) k v =
     (if k' = k then (k, v) # rest else (k', v') # assign rest k v)"

text \<open>\<^verbatim>\<open>delete obj[k]\<close>.\<close>

definition delete :: "jsobject \<Rightarrow> string \<Rightarrow> jsobject" where
  "delete obj k = filter (\<lambda>kv. fst kv \<noteq> k) obj"

text \<open>\<^verbatim>\<open>{ ...a, ...b }\<close>: the properties of \<open>a\<close>, overwritten and extended by those of \<open>b\<close>.\<close>

definition spread :: "jsobject \<Rightarrow> jsobject \<Rightarrow> jsobject" where
  "spread a b = fold (\<lambda>kv acc. assign acc (fst kv) (snd kv)) b a"

section \<open>The validation schema\<close>

text \<open>
  \<^verbatim>\<open>perkSchema\<close> is a Joi object schema. Joi is a library, not code of the repository;
  the part of it that the schema uses is modelled here after Joi's validator: a key's
  schema is a base type, its rules in the order they were added, a presence flag, the
  list of values allowed outright (\<^verbatim>\<open>allow\<close>, \<^verbatim>\<open>valid\<close>), the \<open>only\<close> flag
  that \<^verbatim>\<open>valid\<close> sets, and a default.
\<close>

datatype presence = Optional | Required | Forbidden

datatype basetype = AnyType | StringType | NumberType

datatype rule = Min real | Max real

record schema =
  basetype :: basetype
  rules :: "rule list"
  presence :: presence
  valids :: "jsvalue list"
  only :: bool
  dflt :: "jsvalue option"

definition Joi_any :: schema where
  "Joi_any = \<lparr>basetype = AnyType, rules = [], presence = Optional, valids = [],
     only = False, dflt = None\<rparr>"

definition Joi_string :: schema where
  "Joi_string = Joi_any\<lparr>basetype := StringType\<rparr>"

definition Joi_number :: schema where
  "Joi_number = Joi_any\<lparr>basetype := NumberType\<rparr>"

definition Joi_min :: "real \<Rightarrow> schema \<Rightarrow> schema" where
  "Joi_min limit s = s\<lparr>rules := rules s @ [Min limit]\<rparr>"

definition Joi_max :: "real \<Rightarrow> schema \<Rightarrow> schema" where
  "Joi_max limit s = s\<lparr>rules := rules s @ [Max limit]\<rparr>"

definition Joi_required :: "schema \<Rightarrow> schema" where
  "Joi_required s = s\<lparr>presence := Required\<rparr>"

definition Joi_forbidden :: "schema \<Rightarrow> schema" where
  "Joi_forbidden s = s\<lparr>presence := Forbidden\<rparr>"

definition Joi_allow :: "jsvalue list \<Rightarrow> schema \<Rightarrow> schema" where
  "Joi_allow vs s = s\<lparr>valids := valids s @ vs\<rparr>"

definition Joi_valid :: "jsvalue list \<Rightarrow> schema \<Rightarrow> schema" where
  "Joi_valid vs s = s\<lparr>valids := valids s @ vs, only := True\<rparr>"

definition Joi_default :: "jsvalue \<Rightarrow> schema \<Rightarrow> schema" where
  "Joi_default v s = s\<lparr>dflt := Some v\<rparr>"

definition categories :: "string list" where
  "categories = [''food'', ''tech'', ''travel'', ''fitness'', ''other'']"

text \<open>
  The schema as the source writes it, key by key. The last key is spelt
  \<^verbatim>\<open>ccreatedBy\<close> in the source, and so it is here.
\<close>

definition perkSchema :: "(string \<times> schema) list" where
  "perkSchema =
    [(''title'', Joi_required (Joi_min 2 Joi_string)),
     (''description'', Joi_allow [JStr ''''] Joi_string),
     (''category'', Joi_default (JStr ''other'') (Joi_valid (map JStr categories) Joi_string)),
     (''discountPercent'', Joi_default (JNum 0) (Joi_max 100 (Joi_min 0 Joi_number))),
     (''merchant'', Joi_allow [JStr ''''] Joi_string),
     (''ccreatedBy'', Joi_forbidden Joi_any)]"

section \<open>Validation\<close>

text \<open>
  The preferences of a call of \<^verbatim>\<open>validate\<close>. \<open>create_prefs\<close> are Joi's defaults
  (the creation handler passes no options); \<open>update_prefs\<close> are the options the update
  handler passes.
\<close>

record prefs =
  abortEarly :: bool
  convert :: bool
  allowUnknown :: bool
  stripUnknown :: bool

definition create_prefs :: prefs where
  "create_prefs = \<lparr>abortEarly = True, convert = True, allowUnknown = False,
     stripUnknown = False\<rparr>"

definition update_prefs :: prefs where
  "update_prefs = create_prefs\<lparr>abortEarly := False, stripUnknown := True, convert := True\<rparr>"

text \<open>A validation error: the key it is reported for and Joi's error type.\<close>

datatype verror = VError (err_key: string) (err_type: string)

text \<open>
  With \<open>convert\<close>, a number schema turns a string that reads as a number into that
  number. How Joi reads a string is a parameter of the model: \<open>Converted x\<close> when the
  string is the finite number \<open>x\<close>, \<open>Unsafe\<close> when Joi reports \<^verbatim>\<open>number.unsafe\<close>
  for it, \<open>Unconverted\<close> when the string does not read as a number and is left alone.
\<close>

datatype coercion = Unconverted | Converted real | Unsafe

definition coerce ::
  "prefs \<Rightarrow> (string \<Rightarrow> coercion) \<Rightarrow> schema \<Rightarrow> jsvalue option \<Rightarrow> string + jsvalue option" where
  "coerce p numberOf s item =
     (if convert p \<and> basetype s = NumberType then
        (case item of
           Some (JStr str) \<Rightarrow>
             (case numberOf str of
                Unconverted \<Rightarrow> Inr item
              | Converted x \<Rightarrow> Inr (Some (JNum x))
              | Unsafe \<Rightarrow> Inl ''number.unsafe'')
         | _ \<Rightarrow> Inr item)
      else Inr item)"

definition MAX_SAFE_INTEGER :: real where
  "MAX_SAFE_INTEGER = 9007199254740991"

text \<open>The check of the base type: the error type, or \<open>None\<close> when the value passes.\<close>

definition base_validate :: "schema \<Rightarrow> jsvalue \<Rightarrow> string option" where
  "base_validate s v =
     (case basetype s of
        AnyType \<Rightarrow> None
      | StringType \<Rightarrow>
          (case v of
             JStr str \<Rightarrow>
               (if str = [] \<and> Min 0 \<notin> set (rules s) then Some ''string.empty'' else None)
           | _ \<Rightarrow> Some ''string.base'')
      | NumberType \<Rightarrow>
          (case v of
             JInfinity \<Rightarrow> Some ''number.infinity''
           | JNum x \<Rightarrow>
               (if x > MAX_SAFE_INTEGER \<or> x < - MAX_SAFE_INTEGER then Some ''number.unsafe''
                else None)
           | _ \<Rightarrow> Some ''number.base''))"

text \<open>
  A rule on a value that has passed the base type: a string is measured by its length,
  a number by itself.
\<close>

definition measure_of :: "jsvalue \<Rightarrow> real" where
  "measure_of v = (case v of JStr str \<Rightarrow> real (length str) | JNum x \<Rightarrow> x | _ \<Rightarrow> 0)"

definition type_name :: "schema \<Rightarrow> string" where
  "type_name s =
     (case basetype s of AnyType \<Rightarrow> ''any'' | StringType \<Rightarrow> ''string''
      | NumberType \<Rightarrow> ''number'')"

definition rule_error :: "schema \<Rightarrow> jsvalue \<Rightarrow> rule \<Rightarrow> string list" where
  "rule_error s v r =
     (case r of
        Min limit \<Rightarrow> (if measure_of v < limit then [type_name s @ ''.min''] else [])
      | Max limit \<Rightarrow> (if measure_of v > limit then [type_name s @ ''.max''] else []))"

text \<open>
  One key of the object, as Joi's validator goes through it: coercion, presence, the
  allowed values, the base type, the rules, and the default for a value that is absent.
  The result is the errors of the key and its value after validation. A base type error
  ends the key; with \<open>abortEarly\<close> the first error of a key ends it.
\<close>

definition validate_item ::
  "prefs \<Rightarrow> (string \<Rightarrow> coercion) \<Rightarrow> string \<Rightarrow> schema \<Rightarrow> jsvalue option
     \<Rightarrow> verror list \<times> jsvalue option" where
  "validate_item p numberOf key s item =
     (case coerce p numberOf s item of
        Inl err \<Rightarrow> ([VError key err], item)
      | Inr None \<Rightarrow>
          (if presence s = Required then ([VError key ''any.required''], None)
           else ([], dflt s))
      | Inr (Some v) \<Rightarrow>
          (if presence s = Forbidden then ([VError key ''any.unknown''], Some v)
           else if v \<in> set (valids s) then ([], Some v)
           else if only s \<and> abortEarly p then ([VError key ''any.only''], Some v)
           else
             (let errs = (if only s then [VError key ''any.only''] else []) in
              case base_validate s v of
                Some err \<Rightarrow> (errs @ [VError key err], Some v)
              | None \<Rightarrow>
                  (let failed = map (VError key) (concat (map (rule_error s v) (rules s)))
                   in (errs @ (if abortEarly p then take 1 failed else failed), Some v)))))"

text \<open>
  The loop over the keys of the schema. It works on a copy of the object, which it
  updates key by key, and collects the errors; with \<open>abortEarly\<close> it returns at the first
  key that has an error (the flag of the result says so).
\<close>

fun validate_children ::
  "prefs \<Rightarrow> (string \<Rightarrow> coercion) \<Rightarrow> (string \<times> schema) list \<Rightarrow> jsobject \<Rightarrow> verror list
     \<Rightarrow> bool \<times> jsobject \<times> verror list" where
  "validate_children p numberOf [] obj errs = (False, obj, errs)"
| "validate_children p numberOf ((key, s) # children) obj errs =
     (case validate_item p numberOf key s (lookup obj key) of
        ([], None) \<Rightarrow>
          validate_children p numberOf children
            (if lookup obj key \<noteq> None then delete obj key else obj) errs
      | ([], Some v) \<Rightarrow> validate_children p numberOf children (assign obj key v) errs
      | (e # es, res) \<Rightarrow>
          (if abortEarly p then (True, obj, e # es)
           else validate_children p numberOf children
                  (case res of None \<Rightarrow> obj | Some v \<Rightarrow> assign obj key v) (errs @ e # es)))"

text \<open>
  The object schema: the keys of the schema, then the keys the schema does not know.
  With \<open>stripUnknown\<close> they are deleted; otherwise, unless \<open>allowUnknown\<close>, each is an
  error (the first only, with \<open>abortEarly\<close>).
\<close>

definition validate_object ::
  "prefs \<Rightarrow> (string \<Rightarrow> coercion) \<Rightarrow> (string \<times> schema) list \<Rightarrow> jsobject
     \<Rightarrow> verror list \<times> jsobject" where
  "validate_object p numberOf sch obj =
     (case validate_children p numberOf sch obj [] of
        (True, obj', errs) \<Rightarrow> (errs, obj')
      | (False, obj', errs) \<Rightarrow>
          (let unprocessed = filter (\<lambda>k. k \<notin> set (map fst sch)) (obj_keys obj) in
           if stripUnknown p then (errs, fold (\<lambda>k acc. delete acc k) unprocessed obj')
           else if allowUnknown p then (errs, obj')
           else
             (let unknown = map (\<lambda>k. VError k ''object.unknown'') unprocessed
              in (errs @ (if abortEarly p then take 1 unknown else unknown), obj'))))"

text \<open>
  \<^verbatim>\<open>schema.validate(obj, options)\<close> as the handlers use it: they look at
  \<^verbatim>\<open>error\<close> first and use \<^verbatim>\<open>value\<close> only when there is none. \<open>Inl\<close> carries the
  errors that \<^verbatim>\<open>error.message\<close> reports.
\<close>

definition validate ::
  "prefs \<Rightarrow> (string \<Rightarrow> coercion) \<Rightarrow> jsobject \<Rightarrow> verror list + jsobject" where
  "validate p numberOf obj =
     (case validate_object p numberOf perkSchema obj of
        ([], validated) \<Rightarrow> Inr validated
      | (e # es, validated) \<Rightarrow> Inl (e # es))"

text \<open>
  Two notions for stating what a validation reports: the errors of one key of the
  schema on an object, and the first list that is not empty among some lists of errors.
\<close>

definition key_errors ::
  "prefs \<Rightarrow> (string \<Rightarrow> coercion) \<Rightarrow> jsobject \<Rightarrow> string \<times> schema \<Rightarrow> verror list" where
  "key_errors p numberOf obj ks =
     fst (validate_item p numberOf (fst ks) (snd ks) (lookup obj (fst ks)))"

fun first_errors :: "verror list list \<Rightarrow> verror list" where
  "first_errors [] = []"
| "first_errors (es # rest) = (if es \<noteq> [] then es else first_errors rest)"

section \<open>The collections\<close>

text \<open>
  Modelled from the spec: the Mongoose models \<^verbatim>\<open>models/Perk.js\<close> and
  \<^verbatim>\<open>models/User.js\<close> are imported by the controller and are not among the
  sources. The records follow the data model of the specification. An identifier is
  the string that \<^verbatim>\<open>String(_id)\<close> gives. \<open>createdBy\<close> of a stored perk is
  \<open>NoCreator\<close> (null or absent) or \<open>CreatorKey s\<close>, where \<open>s\<close> is what \<^verbatim>\<open>String\<close>
  makes of the stored value: the identifier of a user or a legacy string. Only the
  public list ever puts a user record there (\<open>CreatorUser\<close>). A user without an email
  has the empty string for it: the code treats both alike.
\<close>

record user =
  user_id :: string
  name :: string
  email :: string

datatype creator = NoCreator | CreatorKey string | CreatorUser user

record perk =
  perk_id :: string
  title :: string
  description :: "string option"
  category :: string
  discountPercent :: real
  merchant :: "string option"
  createdBy :: creator
  createdAt :: int

text \<open>
  What a handler throws or is thrown at: Mongoose's cast and validation errors, the
  server's errors with their numeric \<^verbatim>\<open>code\<close>, and JavaScript's TypeError.
\<close>

datatype exn = CastError | ValidationError | TypeError | MongoServerError nat

definition err_code :: "exn \<Rightarrow> nat option" where
  "err_code e = (case e of MongoServerError c \<Rightarrow> Some c | _ \<Rightarrow> None)"

text \<open>
  What a handler does in the end: it sends a response (\<^verbatim>\<open>res.status(n).json(b)\<close>;
  \<^verbatim>\<open>res.json(b)\<close> sends status 200), or it passes an error to the generic error
  handler (\<^verbatim>\<open>next(err)\<close>).
\<close>

datatype body =
    Message string
  | ValidationMessage "verror list"
  | PerkArray "perk list"
  | Perks "perk list"
  | OnePerk perk
  | Ok

datatype outcome = Respond nat body | Next exn

text \<open>
  The environment of a request: how Joi reads a string as a number, which strings are
  syntactically valid identifiers (\<^verbatim>\<open>mongoose.Types.ObjectId.isValid\<close>, and the cast
  of an \<^verbatim>\<open>_id\<close>), how the store matches a title against a case-insensitive regular
  expression, the error the server raises for an insert (a duplicate key among them),
  the identifier it gives a new document, and the clock.
\<close>

record env =
  numberOf :: "string \<Rightarrow> coercion"
  isValid :: "string \<Rightarrow> bool"
  regexTest :: "string \<Rightarrow> string \<Rightarrow> bool"
  insertFault :: "perk \<Rightarrow> perk list \<Rightarrow> exn option"
  newId :: string
  now :: int

subsection \<open>The operations of the store\<close>

text \<open>
  Modelled from the spec: the queries that the controller calls on the model
  \<^verbatim>\<open>Perk\<close>, which is missing with \<^verbatim>\<open>models/Perk.js\<close>. A collection is the list
  of its documents. \<^verbatim>\<open>find(q)\<close> keeps the documents that match,
  \<^verbatim>\<open>sort({ createdAt: -1 })\<close> puts the newest first. A lookup by \<^verbatim>\<open>_id\<close> casts
  the identifier first: the store throws on a malformed identifier, as the specification
  says of the population of references, and the error is Mongoose's cast error.
\<close>

definition Perk_find :: "(perk \<Rightarrow> bool) \<Rightarrow> perk list \<Rightarrow> perk list" where
  "Perk_find q db = filter q db"

definition sort_newest_first :: "perk list \<Rightarrow> perk list" where
  "sort_newest_first ps = sort_key (\<lambda>p. - createdAt p) ps"

definition Perk_findById :: "(string \<Rightarrow> bool) \<Rightarrow> perk list \<Rightarrow> string \<Rightarrow> exn + perk option" where
  "Perk_findById castable db i =
     (if castable i then Inr (find (\<lambda>p. perk_id p = i) db) else Inl CastError)"

text \<open>
  Modelled from the spec: writing an object into a document of the missing model, as
  Mongoose does for the paths of the Perk schema (the fields of the data model):
  it reads each path from the object, casts it to the type of the path, and leaves the
  path alone when the object does not have it. A property that is not a path of the
  schema is ignored. An object that has passed \<open>validate\<close> has values of the right
  types; a value of another type is a cast error here.
\<close>

definition cast_string :: "jsvalue option \<Rightarrow> exn + string option" where
  "cast_string item =
     (case item of None \<Rightarrow> Inr None | Some (JStr s) \<Rightarrow> Inr (Some s) | Some _ \<Rightarrow> Inl CastError)"

definition cast_number :: "jsvalue option \<Rightarrow> exn + real option" where
  "cast_number item =
     (case item of None \<Rightarrow> Inr None | Some (JNum x) \<Rightarrow> Inr (Some x) | Some _ \<Rightarrow> Inl CastError)"

definition set_paths :: "perk \<Rightarrow> jsobject \<Rightarrow> exn + perk" where
  "set_paths p obj =
     (case cast_string (lookup obj ''title'') of Inl e \<Rightarrow> Inl e | Inr t \<Rightarrow>
      case cast_string (lookup obj ''description'') of Inl e \<Rightarrow> Inl e | Inr d \<Rightarrow>
      case cast_string (lookup obj ''category'') of Inl e \<Rightarrow> Inl e | Inr c \<Rightarrow>
      case cast_number (lookup obj ''discountPercent'') of Inl e \<Rightarrow> Inl e | Inr x \<Rightarrow>
      case cast_string (lookup obj ''merchant'') of Inl e \<Rightarrow> Inl e | Inr m \<Rightarrow>
      case cast_string (lookup obj ''createdBy'') of Inl e \<Rightarrow> Inl e | Inr cb \<Rightarrow>
        Inr (p\<lparr>title := (case t of None \<Rightarrow> title p | Some s \<Rightarrow> s),
               description := (case d of None \<Rightarrow> description p | Some s \<Rightarrow> Some s),
               category := (case c of None \<Rightarrow> category p | Some s \<Rightarrow> s),
               discountPercent := (case x of None \<Rightarrow> discountPercent p | Some y \<Rightarrow> y),
               merchant := (case m of None \<Rightarrow> merchant p | Some s \<Rightarrow> Some s),
               createdBy := (case cb of None \<Rightarrow> createdBy p | Some s \<Rightarrow> CreatorKey s)\<rparr>))"

text \<open>
  Modelled from the spec: the validators of the missing Perk schema, which are the
  constraints of the data model of the specification (a title of at least two
  characters, a category of the enum, a discount between 0 and 100).
\<close>

definition perk_validators :: "perk \<Rightarrow> bool" where
  "perk_validators p =
     (2 \<le> length (title p) \<and> category p \<in> set categories \<and>
      0 \<le> discountPercent p \<and> discountPercent p \<le> 100)"

text \<open>
  Modelled from the spec: \<^verbatim>\<open>Perk.create(obj)\<close> of the missing model. A new document
  has the defaults of the data model, the identifier and the creation time that the
  environment gives; the object is written into it, the validators run, and the server
  may refuse the insert (\<open>insertFault\<close>: a duplicate key, or any other error). A stored
  document goes last in the collection.
\<close>

definition blank_perk :: "string \<Rightarrow> int \<Rightarrow> perk" where
  "blank_perk i t =
     \<lparr>perk_id = i, title = [], description = None, category = ''other'',
      discountPercent = 0, merchant = None, createdBy = NoCreator, createdAt = t\<rparr>"

definition Perk_create :: "env \<Rightarrow> jsobject \<Rightarrow> perk list \<Rightarrow> exn + perk \<times> perk list" where
  "Perk_create E obj db =
     (case set_paths (blank_perk (newId E) (now E)) obj of
        Inl e \<Rightarrow> Inl e
      | Inr p \<Rightarrow>
          (if \<not> perk_validators p then Inl ValidationError
           else case insertFault E p db of
                  Some e \<Rightarrow> Inl e
                | None \<Rightarrow> Inr (p, db @ [p])))"

text \<open>
  Modelled from the spec: the first document with an identifier, replaced or removed.
\<close>

fun replace_first :: "string \<Rightarrow> perk \<Rightarrow> perk list \<Rightarrow> perk list" where
  "replace_first i p' [] = []"
| "replace_first i p' (p # ps) =
     (if perk_id p = i then p' # ps else p # replace_first i p' ps)"

fun remove_first :: "string \<Rightarrow> perk list \<Rightarrow> perk list" where
  "remove_first i [] = []"
| "remove_first i (p # ps) = (if perk_id p = i then ps else p # remove_first i ps)"

text \<open>
  Modelled from the spec:
  \<^verbatim>\<open>findByIdAndUpdate(id, { $set: obj }, { new: true, runValidators: true })\<close> and
  \<^verbatim>\<open>findByIdAndDelete(id)\<close> of the missing model: the document after the update
  (before the deletion), or nothing when no document has the identifier.
\<close>

definition Perk_findByIdAndUpdate ::
  "(string \<Rightarrow> bool) \<Rightarrow> string \<Rightarrow> jsobject \<Rightarrow> perk list \<Rightarrow> exn + perk option \<times> perk list" where
  "Perk_findByIdAndUpdate castable i obj db =
     (if \<not> castable i then Inl CastError
      else case find (\<lambda>p. perk_id p = i) db of
             None \<Rightarrow> Inr (None, db)
           | Some p \<Rightarrow>
               (case set_paths p obj of
                  Inl e \<Rightarrow> Inl e
                | Inr p' \<Rightarrow>
                    (if \<not> perk_validators p' then Inl ValidationError
                     else Inr (Some p', replace_first i p' db))))"

definition Perk_findByIdAndDelete ::
  "(string \<Rightarrow> bool) \<Rightarrow> string \<Rightarrow> perk list \<Rightarrow> exn + perk option \<times> perk list" where
  "Perk_findByIdAndDelete castable i db =
     (if \<not> castable i then Inl CastError
      else case find (\<lambda>p. perk_id p = i) db of
             None \<Rightarrow> Inr (None, db)
           | Some p \<Rightarrow> Inr (Some p, remove_first i db))"

text \<open>
  Modelled from the spec: \<^verbatim>\<open>existingPerk.toObject()\<close>, the stored fields of the document, an absent optional
  field left out. The values of \<^verbatim>\<open>_id\<close> and \<^verbatim>\<open>createdAt\<close> are objects;
  \<^verbatim>\<open>createdBy\<close> is given by its string. None of the three is a key of \<open>perkSchema\<close>.
\<close>

definition toObject :: "perk \<Rightarrow> jsobject" where
  "toObject p =
     [(''_id'', JOther), (''title'', JStr (title p))] @
     (case description p of None \<Rightarrow> [] | Some d \<Rightarrow> [(''description'', JStr d)]) @
     [(''category'', JStr (category p)), (''discountPercent'', JNum (discountPercent p))] @
     (case merchant p of None \<Rightarrow> [] | Some m \<Rightarrow> [(''merchant'', JStr m)]) @
     (case createdBy p of NoCreator \<Rightarrow> [] | CreatorKey s \<Rightarrow> [(''createdBy'', JStr s)]
      | CreatorUser u \<Rightarrow> [(''createdBy'', JOther)]) @
     [(''createdAt'', JOther), (''__v'', JNum 0)]"

section \<open>The handlers\<close>

text \<open>
  A query parameter is a string or absent, a request body is an object, and
  \<^verbatim>\<open>req.user\<close> is absent or carries the caller's \<^verbatim>\<open>id\<close>. A handler that writes
  returns the collection after it.
\<close>

definition truthy :: "string option \<Rightarrow> bool" where
  "truthy q = (case q of None \<Rightarrow> False | Some s \<Rightarrow> s \<noteq> [])"

definition filterPerks :: "string option \<Rightarrow> perk list \<Rightarrow> outcome" where
  "filterPerks title_q db =
     (if truthy title_q then
        Respond 200 (PerkArray (sort_newest_first (Perk_find (\<lambda>p. Some (title p) = title_q) db)))
      else Respond 400 (Message ''Title query parameter is required''))"

definition getPerk :: "env \<Rightarrow> string \<Rightarrow> perk list \<Rightarrow> outcome" where
  "getPerk E i db =
     (case Perk_findById (isValid E) db i of
        Inl e \<Rightarrow> Next e
      | Inr None \<Rightarrow> Respond 404 (Message ''Perk not found'')
      | Inr (Some p) \<Rightarrow> Respond 200 (OnePerk p))"

definition createPerk ::
  "env \<Rightarrow> jsobject \<Rightarrow> string option \<Rightarrow> perk list \<Rightarrow> outcome \<times> perk list" where
  "createPerk E req_body req_user db =
     (case validate create_prefs (numberOf E) req_body of
        Inl errs \<Rightarrow> (Respond 400 (ValidationMessage errs), db)
      | Inr validated \<Rightarrow>
          (case req_user of
             None \<Rightarrow> (Next TypeError, db)
           | Some uid \<Rightarrow>
               (case Perk_create E (assign validated ''createdBy'' (JStr uid)) db of
                  Inl e \<Rightarrow>
                    (if err_code e = Some 11000
                     then (Respond 409 (Message ''Duplicate perk for this merchant''), db)
                     else (Next e, db))
                | Inr (doc, db') \<Rightarrow> (Respond 201 (OnePerk doc), db'))))"

definition updatePerk ::
  "env \<Rightarrow> string \<Rightarrow> jsobject \<Rightarrow> perk list \<Rightarrow> outcome \<times> perk list" where
  "updatePerk E i req_body db =
     (case Perk_findById (isValid E) db i of
        Inl e \<Rightarrow> (Next e, db)
      | Inr None \<Rightarrow> (Respond 404 (Message ''Perk not found''), db)
      | Inr (Some existingPerk) \<Rightarrow>
          (let updatedData = spread (toObject existingPerk) req_body in
           case validate update_prefs (numberOf E) updatedData of
             Inl errs \<Rightarrow> (Respond 400 (ValidationMessage errs), db)
           | Inr validated \<Rightarrow>
               (case Perk_findByIdAndUpdate (isValid E) i validated db of
                  Inl e \<Rightarrow> (Next e, db)
                | Inr (None, db') \<Rightarrow> (Respond 404 (Message ''Perk not found''), db')
                | Inr (Some doc, db') \<Rightarrow> (Respond 200 (OnePerk doc), db'))))"

definition deletePerk :: "env \<Rightarrow> string \<Rightarrow> perk list \<Rightarrow> outcome \<times> perk list" where
  "deletePerk E i db =
     (case Perk_findByIdAndDelete (isValid E) i db of
        Inl e \<Rightarrow> (Next e, db)
      | Inr (None, db') \<Rightarrow> (Respond 404 (Message ''Perk not found''), db')
      | Inr (Some doc, db') \<Rightarrow> (Respond 200 Ok, db'))"

subsection \<open>The public list and the resolution of creators\<close>

text \<open>
  Strings are lists of 8-bit characters; \<open>toLowerCase\<close> and \<open>trim\<close> are those of
  JavaScript on ASCII text.
\<close>

definition toLowerCase :: "string \<Rightarrow> string" where
  "toLowerCase s =
     map (\<lambda>c. let n = (of_char c :: nat) in
                if 65 \<le> n \<and> n \<le> 90 then char_of (n + 32) else c) s"

definition is_space :: "char \<Rightarrow> bool" where
  "is_space c = ((of_char c :: nat) \<in> {9, 10, 11, 12, 13, 32})"

definition trim :: "string \<Rightarrow> string" where
  "trim s = rev (dropWhile is_space (rev (dropWhile is_space s)))"

text \<open>
  \<^verbatim>\<open>String(p.createdBy)\<close> of a truthy value, \<open>None\<close> of a falsy one (null, absent,
  the empty string): the two loops skip a perk whose \<^verbatim>\<open>createdBy\<close> is falsy.
\<close>

definition creator_string :: "creator \<Rightarrow> string option" where
  "creator_string c =
     (case c of
        NoCreator \<Rightarrow> None
      | CreatorKey s \<Rightarrow> (if s = [] then None else Some s)
      | CreatorUser u \<Rightarrow> Some ''[object Object]'')"

text \<open>A JavaScript \<^verbatim>\<open>Set\<close> keeps its elements once each, in insertion order.\<close>

definition set_add :: "'a list \<Rightarrow> 'a \<Rightarrow> 'a list" where
  "set_add xs x = (if x \<in> set xs then xs else xs @ [x])"

text \<open>The first loop: the identifiers and the other strings among the creators.\<close>

fun collect_keys ::
  "(string \<Rightarrow> bool) \<Rightarrow> perk list \<Rightarrow> string list \<times> string list \<Rightarrow> string list \<times> string list" where
  "collect_keys valid [] sets = sets"
| "collect_keys valid (p # ps) (idSet, stringKeys) =
     (case creator_string (createdBy p) of
        None \<Rightarrow> collect_keys valid ps (idSet, stringKeys)
      | Some cb \<Rightarrow>
          (if valid cb then collect_keys valid ps (set_add idSet cb, stringKeys)
           else collect_keys valid ps (idSet, set_add stringKeys cb)))"

text \<open>
  \<^verbatim>\<open>User.findOne\<close> for a string key: by the lower-cased key as email when the key
  contains an at sign, by the key as name otherwise. The first user that matches, if any.
\<close>

definition lookup_user :: "user list \<Rightarrow> string \<Rightarrow> user option" where
  "lookup_user users key =
     (if CHR ''@'' \<in> set key then find (\<lambda>u. email u = toLowerCase key) users
      else find (\<lambda>u. name u = key) users)"

text \<open>\<^verbatim>\<open>new Map(entries)\<close>: of two entries with one key, the later one stays.\<close>

definition new_Map :: "('k \<times> 'v) list \<Rightarrow> 'k \<Rightarrow> 'v option" where
  "new_Map entries = map_of (rev entries)"

definition key_of_user :: "user \<Rightarrow> string" where
  "key_of_user u = (let e = toLowerCase (email u) in if e \<noteq> [] then e else name u)"

text \<open>The second loop, on one perk.\<close>

definition attach ::
  "(string \<Rightarrow> user option) \<Rightarrow> (string \<Rightarrow> user option) \<Rightarrow> perk \<Rightarrow> perk" where
  "attach userMapById userMapByKey p =
     (case creator_string (createdBy p) of
        None \<Rightarrow> p
      | Some cb \<Rightarrow>
          (case userMapById cb of
             Some u \<Rightarrow> p\<lparr>createdBy := CreatorUser u\<rparr>
           | None \<Rightarrow>
               (if userMapByKey cb \<noteq> None \<or> userMapByKey (toLowerCase cb) \<noteq> None then
                  p\<lparr>createdBy :=
                      (case userMapByKey cb of
                         Some u \<Rightarrow> CreatorUser u
                       | None \<Rightarrow>
                           (case userMapByKey (toLowerCase cb) of
                              Some u \<Rightarrow> CreatorUser u
                            | None \<Rightarrow> NoCreator))\<rparr>
                else p\<lparr>createdBy := NoCreator\<rparr>)))"

definition attach_creators :: "(string \<Rightarrow> bool) \<Rightarrow> user list \<Rightarrow> perk list \<Rightarrow> perk list" where
  "attach_creators valid users perks =
     (case collect_keys valid perks ([], []) of
        (idSet, stringKeys) \<Rightarrow>
          (let usersById = (if idSet \<noteq> [] then filter (\<lambda>u. user_id u \<in> set idSet) users else []);
               usersByString = List.map_filter (lookup_user users) stringKeys;
               userMapById = new_Map (map (\<lambda>u. (user_id u, u)) usersById);
               userMapByKey = new_Map (map (\<lambda>u. (key_of_user u, u)) usersByString)
           in map (attach userMapById userMapByKey) perks))"

definition getAllPerksPublic ::
  "env \<Rightarrow> string option \<Rightarrow> string option \<Rightarrow> user list \<Rightarrow> perk list \<Rightarrow> outcome" where
  "getAllPerksPublic E search merchant_q users db =
     (let title_ok = (\<lambda>p. case search of
                            None \<Rightarrow> True
                          | Some s \<Rightarrow> (if s \<noteq> [] \<and> trim s \<noteq> [] then regexTest E (trim s) (title p)
                                       else True));
          merchant_ok = (\<lambda>p. case merchant_q of
                               None \<Rightarrow> True
                             | Some m \<Rightarrow> (if m \<noteq> [] \<and> trim m \<noteq> [] then merchant p = Some (trim m)
                                          else True));
          perks = sort_newest_first (Perk_find (\<lambda>p. title_ok p \<and> merchant_ok p) db)
      in Respond 200
           (Perks (if length perks > 0 then attach_creators (isValid E) users perks else perks)))"

section \<open>Notions for the proofs\<close>

text \<open>
  What one round of the loop over the keys leaves in the object: the value of the key
  after the round, and the object after the round. \<open>unknown_errors\<close> are the errors for
  the keys that the schema does not know.
\<close>

definition key_value ::
  "prefs \<Rightarrow> (string \<Rightarrow> coercion) \<Rightarrow> jsobject \<Rightarrow> string \<Rightarrow> schema \<Rightarrow> jsvalue option" where
  "key_value p n obj k s =
     (case validate_item p n k s (lookup obj k) of
        ([], r) \<Rightarrow> r
      | (e # es, None) \<Rightarrow> lookup obj k
      | (e # es, Some v) \<Rightarrow> Some v)"


definition after_key :: "prefs \<Rightarrow> (string \<Rightarrow> coercion) \<Rightarrow> jsobject \<Rightarrow> string \<Rightarrow> schema \<Rightarrow> jsobject" where
  "after_key p n obj k s =
     (case validate_item p n k s (lookup obj k) of
        ([], None) \<Rightarrow> (if lookup obj k \<noteq> None then delete obj k else obj)
      | ([], Some v) \<Rightarrow> assign obj k v
      | (e # es, None) \<Rightarrow> obj
      | (e # es, Some v) \<Rightarrow> assign obj k v)"


definition unknown_errors :: "prefs \<Rightarrow> jsobject \<Rightarrow> verror list" where
  "unknown_errors p obj =
     (if stripUnknown p \<or> allowUnknown p then []
      else map (\<lambda>k. VError k ''object.unknown'')
             (filter (\<lambda>k. k \<notin> set (map fst perkSchema)) (obj_keys obj)))"


subsection \<open>Sample data\<close>

text \<open>
  Concrete instances of the environment and of the collections, for the closed examples:
  identifiers of 24 hexadecimal digits, a reading of strings of decimal digits as
  numbers, patterns without metacharacters (a pattern matches the titles that contain
  it, whatever the case), and a unique index on title and merchant.
\<close>

definition hex24 :: "string \<Rightarrow> bool" where
  "hex24 s = (length s = 24 \<and> list_all (\<lambda>c. c \<in> set ''0123456789abcdefABCDEF'') s)"

definition decimal :: "string \<Rightarrow> coercion" where
  "decimal s =
     (if s \<noteq> [] \<and> list_all (\<lambda>c. c \<in> set ''0123456789'') s
      then Converted (real (foldl (\<lambda>a c. 10 * a + (of_char c - 48)) 0 s))
      else Unconverted)"

fun infix_of :: "string \<Rightarrow> string \<Rightarrow> bool" where
  "infix_of pat [] = (pat = [])"
| "infix_of pat (c # cs) = (take (length pat) (c # cs) = pat \<or> infix_of pat cs)"

definition same_title_and_merchant :: "perk \<Rightarrow> perk list \<Rightarrow> exn option" where
  "same_title_and_merchant p db =
     (if list_ex (\<lambda>q. title q = title p \<and> merchant q = merchant p) db
      then Some (MongoServerError 11000) else None)"

definition sample_env :: env where
  "sample_env =
     \<lparr>numberOf = decimal, isValid = hex24, regexTest = (\<lambda>pat s. infix_of (toLowerCase pat) (toLowerCase s)),
      insertFault = same_title_and_merchant, newId = ''65f0a1b2c3d4e5f600000002'',
      now = 1700\<rparr>"

definition bob :: user where
  "bob = \<lparr>user_id = ''65f0a1b2c3d4e5f6000000aa'', name = ''bob'',
           email = ''bob@example.com''\<rparr>"

definition coffee :: perk where
  "coffee =
     \<lparr>perk_id = ''65f0a1b2c3d4e5f600000001'', title = ''Coffee Club'',
      description = Some ''Free refill'', category = ''food'', discountPercent = 10,
      merchant = Some ''Acme'', createdBy = CreatorKey ''65f0a1b2c3d4e5f6000000aa'',
      createdAt = 1000\<rparr>"

definition latte :: perk where
  "latte = coffee\<lparr>perk_id := ''65f0a1b2c3d4e5f600000003'', merchant := Some ''Bean Bar'',
                   createdAt := 2000\<rparr>"

definition gym :: perk where
  "gym = \<lparr>perk_id = ''65f0a1b2c3d4e5f600000004'', title = ''Gym Pass'',
      description = None, category = ''fitness'', discountPercent = 25,
      merchant = None, createdBy = CreatorKey ''bob'', createdAt = 1500\<rparr>"

definition unreachable_env :: env where
  "unreachable_env = sample_env\<lparr>insertFault := (\<lambda>p db. Some (MongoServerError 89))\<rparr>"

definition bad_body :: jsobject where
  "bad_body = [(''title'', JStr ''''), (''category'', JStr ''drinks''),
               (''discountPercent'', JNum 150)]"



section \<open>Objects\<close>

lemma lookup_assign: "lookup (assign obj k v) k' = (if k' = k then Some v else lookup obj k')"
  by (induction obj) (auto simp: lookup_def)

lemma lookup_delete: "lookup (delete obj k) k' = (if k' = k then None else lookup obj k')"
  unfolding lookup_def delete_def by (induction obj) auto

lemma lookup_strip:
  "lookup (fold (\<lambda>k acc. delete acc k) ks obj) k' = (if k' \<in> set ks then None else lookup obj k')"
  by (induction ks arbitrary: obj) (auto simp: lookup_delete)

lemma lookup_spread: "k \<notin> set (obj_keys b) \<Longrightarrow> lookup (spread a b) k = lookup a k"
  unfolding spread_def obj_keys_def
  by (induction b arbitrary: a) (auto simp: lookup_assign)

lemma lookup_None_iff: "lookup obj k = None \<longleftrightarrow> k \<notin> set (obj_keys obj)"
  by (simp add: lookup_def obj_keys_def map_of_eq_None_iff)

lemma lookup_after_key:
  "lookup (after_key p n obj k s) k' = (if k' = k then key_value p n obj k s else lookup obj k')"
  by (auto simp: after_key_def key_value_def lookup_assign lookup_delete
      split: prod.splits list.splits option.splits)

lemma validate_children_step:
  "validate_children p n ((k, s) # children) obj errs =
     (if key_errors p n obj (k, s) \<noteq> [] \<and> abortEarly p then (True, obj, key_errors p n obj (k, s))
      else validate_children p n children (after_key p n obj k s) (errs @ key_errors p n obj (k, s)))"
  by (auto simp: key_errors_def after_key_def split: prod.splits list.splits option.splits)

lemma key_errors_after_key:
  "fst ks \<noteq> k \<Longrightarrow> key_errors p n (after_key p n obj k s) ks = key_errors p n obj ks"
  by (simp add: key_errors_def lookup_after_key)

lemma key_value_after_key:
  "k' \<noteq> k \<Longrightarrow> key_value p n (after_key p n obj k s) k' s' = key_value p n obj k' s'"
  by (simp add: key_value_def lookup_after_key split: prod.splits list.splits option.splits)

lemma validate_children_collect:
  assumes "\<not> abortEarly p" "distinct (map fst sch)"
  shows "\<exists>obj'. validate_children p n sch obj errs =
           (False, obj', errs @ concat (map (key_errors p n obj) sch)) \<and>
         (\<forall>k. lookup obj' k =
            (case map_of sch k of None \<Rightarrow> lookup obj k | Some s \<Rightarrow> key_value p n obj k s))"
  using assms(2)
proof (induction sch arbitrary: obj errs)
  case Nil
  then show ?case by simp
next
  case (Cons a sch)
  obtain k s where a: "a = (k, s)" by (cases a)
  from Cons.prems a have d: "distinct (map fst sch)" and nk: "\<forall>ks \<in> set sch. fst ks \<noteq> k"
    by auto
  from Cons.IH [OF d, of "after_key p n obj k s" "errs @ key_errors p n obj (k, s)"]
  obtain obj' where
    1: "validate_children p n sch (after_key p n obj k s) (errs @ key_errors p n obj (k, s)) =
          (False, obj', (errs @ key_errors p n obj (k, s)) @
             concat (map (key_errors p n (after_key p n obj k s)) sch))"
    and 2: "\<forall>k'. lookup obj' k' =
            (case map_of sch k' of None \<Rightarrow> lookup (after_key p n obj k s) k'
             | Some s' \<Rightarrow> key_value p n (after_key p n obj k s) k' s')"
    by blast
  have 3: "map (key_errors p n (after_key p n obj k s)) sch = map (key_errors p n obj) sch"
    using nk by (auto simp: key_errors_after_key)
  have 4: "lookup obj' k' =
      (case map_of (a # sch) k' of None \<Rightarrow> lookup obj k' | Some s' \<Rightarrow> key_value p n obj k' s')" for k'
  proof (cases "k' = k")
    case True
    with nk have "map_of sch k' = None" by (auto simp: map_of_eq_None_iff)
    with 2 True a show ?thesis by (simp add: lookup_after_key)
  next
    case False
    with 2 a show ?thesis
      by (auto simp: lookup_after_key key_value_after_key split: option.splits)
  qed
  from 1 3 4 a assms(1) show ?case
    by (simp add: validate_children_step del: validate_children.simps)
qed

lemma validate_children_abort:
  assumes "abortEarly p" "distinct (map fst sch)"
  shows "\<exists>b obj'. validate_children p n sch obj [] =
           (b, obj', first_errors (map (key_errors p n obj) sch)) \<and>
         (b \<longleftrightarrow> first_errors (map (key_errors p n obj) sch) \<noteq> []) \<and>
         (\<not> b \<longrightarrow> (\<forall>k. lookup obj' k =
            (case map_of sch k of None \<Rightarrow> lookup obj k | Some s \<Rightarrow> key_value p n obj k s)))"
  using assms(2)
proof (induction sch arbitrary: obj)
  case Nil
  then show ?case by auto
next
  case (Cons a sch)
  obtain k s where a: "a = (k, s)" by (cases a)
  from Cons.prems a have d: "distinct (map fst sch)" and nk: "\<forall>ks \<in> set sch. fst ks \<noteq> k"
    by auto
  show ?case
  proof (cases "key_errors p n obj (k, s) = []")
    case False
    with a assms(1) show ?thesis
      by (auto simp add: validate_children_step simp del: validate_children.simps)
  next
    case True
    from Cons.IH [OF d, of "after_key p n obj k s"]
    obtain b obj' where
      1: "validate_children p n sch (after_key p n obj k s) [] =
          (b, obj', first_errors (map (key_errors p n (after_key p n obj k s)) sch))"
      and b1: "b \<longleftrightarrow> first_errors (map (key_errors p n (after_key p n obj k s)) sch) \<noteq> []"
      and 2: "\<not> b \<longrightarrow> (\<forall>k'. lookup obj' k' =
            (case map_of sch k' of None \<Rightarrow> lookup (after_key p n obj k s) k'
             | Some s' \<Rightarrow> key_value p n (after_key p n obj k s) k' s'))"
      by blast
    have 3: "map (key_errors p n (after_key p n obj k s)) sch = map (key_errors p n obj) sch"
      using nk by (auto simp: key_errors_after_key)
    have 4: "lookup obj' k' =
      (case map_of (a # sch) k' of None \<Rightarrow> lookup obj k' | Some s' \<Rightarrow> key_value p n obj k' s')"
      if nb: "\<not> b" for k'
    proof (cases "k' = k")
      case True
      with nk have "map_of sch k' = None" by (auto simp: map_of_eq_None_iff)
      with 2 nb True a show ?thesis by (simp add: lookup_after_key)
    next
      case False
      with 2 nb a show ?thesis
        by (auto simp: lookup_after_key key_value_after_key split: option.splits)
    qed
    from 1 b1 3 4 a True show ?thesis
      by (simp add: validate_children_step del: validate_children.simps)
  qed
qed

section \<open>What a validation reports and returns\<close>

lemma distinct_perkSchema: "distinct (map fst perkSchema)"
  by (simp add: perkSchema_def)

lemma first_errors_Nil_iff: "first_errors (map f xs) = [] \<longleftrightarrow> (\<forall>x \<in> set xs. f x = [])"
  by (induction xs) auto

lemma take1_append:
  "take (Suc 0) (xs @ ys) = (if xs \<noteq> [] then take (Suc 0) xs else take (Suc 0) ys)"
  by (cases xs) auto

lemma first_errors_take1:
  "first_errors (map (\<lambda>x. take (Suc 0) (f x)) xs) = take (Suc 0) (concat (map f xs))"
  by (induction xs) (auto simp: take1_append simp del: take_append)

lemma validate_item_abort:
  "fst (validate_item (p\<lparr>abortEarly := True\<rparr>) n k s item) =
   take (Suc 0) (fst (validate_item (p\<lparr>abortEarly := False\<rparr>) n k s item))"
  by (auto simp: validate_item_def coerce_def split: sum.splits option.splits jsvalue.splits coercion.splits)

lemma key_errors_abort:
  "key_errors (p\<lparr>abortEarly := True\<rparr>) n obj =
   (\<lambda>ks. take (Suc 0) (key_errors (p\<lparr>abortEarly := False\<rparr>) n obj ks))"
  by (rule ext) (simp add: key_errors_def validate_item_abort)

lemma validate_object_collect:
  assumes "\<not> abortEarly p"
  shows "fst (validate_object p n perkSchema obj) =
           concat (map (key_errors p n obj) perkSchema) @ unknown_errors p obj"
proof -
  from validate_children_collect [OF assms distinct_perkSchema, of n obj "[]"]
  obtain obj' where "validate_children p n perkSchema obj [] =
      (False, obj', concat (map (key_errors p n obj) perkSchema))"
    by auto
  with assms show ?thesis
    by (simp add: validate_object_def unknown_errors_def Let_def)
qed

lemma validate_object_abort:
  assumes "abortEarly p"
  shows "fst (validate_object p n perkSchema obj) =
           (if first_errors (map (key_errors p n obj) perkSchema) \<noteq> []
            then first_errors (map (key_errors p n obj) perkSchema)
            else take 1 (unknown_errors p obj))"
proof -
  from validate_children_abort [OF assms distinct_perkSchema, of n obj]
  obtain b obj' where "validate_children p n perkSchema obj [] =
      (b, obj', first_errors (map (key_errors p n obj) perkSchema))"
    and "b \<longleftrightarrow> first_errors (map (key_errors p n obj) perkSchema) \<noteq> []"
    by auto
  with assms show ?thesis
    by (auto simp: validate_object_def unknown_errors_def Let_def)
qed

lemma validate_object_lookup:
  assumes "fst (validate_object p n perkSchema obj) = []"
  shows "lookup (snd (validate_object p n perkSchema obj)) k =
     (case map_of perkSchema k of
        Some s \<Rightarrow> key_value p n obj k s
      | None \<Rightarrow> (if stripUnknown p then None else lookup obj k))"
proof -
  have "\<exists>b obj'. validate_children p n perkSchema obj [] = (b, obj', fst (validate_object p n perkSchema obj) ) \<and> \<not> b \<and> (\<forall>k. lookup obj' k =
            (case map_of perkSchema k of None \<Rightarrow> lookup obj k | Some s \<Rightarrow> key_value p n obj k s))"
  proof (cases "abortEarly p")
    case True
    from validate_children_abort [OF True distinct_perkSchema, of n obj] validate_object_abort[OF True, of n obj] assms 
    show ?thesis by (auto split: if_splits)
  next
    case False
    from validate_children_collect [OF False distinct_perkSchema, of n obj "[]"] validate_object_collect[OF False, of n obj] assms 
    show ?thesis by auto
  qed
  then obtain obj' where 1: "validate_children p n perkSchema obj [] = (False, obj', [])"
    and 2: "\<And>k. lookup obj' k =
            (case map_of perkSchema k of None \<Rightarrow> lookup obj k | Some s \<Rightarrow> key_value p n obj k s)"
    using assms by auto
  have 3: "map_of perkSchema k = None \<longleftrightarrow> k \<notin> set (map fst perkSchema)"
    by (simp add: map_of_eq_None_iff)
  show ?thesis
  proof (cases "stripUnknown p")
    case True
    with 1 have "snd (validate_object p n perkSchema obj) = fold (\<lambda>k acc. delete acc k) (filter (\<lambda>k. k \<notin> set (map fst perkSchema)) (obj_keys obj)) obj'"
      by (simp add: validate_object_def)
    then show ?thesis using True 2[of k] 3 
      by (auto simp: lookup_strip lookup_None_iff[symmetric] split: option.splits)
  next
    case False
    with 1 have "snd (validate_object p n perkSchema obj) = obj'"
      by (simp add: validate_object_def Let_def)
    then show ?thesis using False 2[of k] by simp
  qed
qed

lemma validate_Inr:
  "validate p n obj = Inr validated \<longleftrightarrow>
     fst (validate_object p n perkSchema obj) = [] \<and> validated = snd (validate_object p n perkSchema obj)"
  by (auto simp: validate_def split: prod.splits list.splits)

lemma validate_Inl:
  "validate p n obj = Inl errs \<longleftrightarrow>
     errs \<noteq> [] \<and> errs = fst (validate_object p n perkSchema obj)"
  by (auto simp: validate_def split: prod.splits list.splits)

lemma validate_ok_key_errors:
  assumes "validate p n obj = Inr validated" "ks \<in> set perkSchema"
  shows "key_errors p n obj ks = []"
proof (cases "abortEarly p")
  case True
  with assms validate_object_abort[OF True, of n obj] show ?thesis
    by (auto simp: validate_Inr first_errors_Nil_iff split: if_splits)
next
  case False
  with assms validate_object_collect[OF False, of n obj] show ?thesis
    by (auto simp: validate_Inr)
qed

lemma validate_ok_lookup:
  assumes "validate p n obj = Inr validated"
  shows "lookup validated k =
     (case map_of perkSchema k of
        Some s \<Rightarrow> key_value p n obj k s
      | None \<Rightarrow> (if stripUnknown p then None else lookup obj k))"
  using assms validate_object_lookup[of p n obj k] by (simp add: validate_Inr)

lemma validate_first_of_all:
  assumes "validate (p\<lparr>abortEarly := True\<rparr>) n obj = Inl errs"
  shows "\<exists>e rest. errs = [e] \<and> validate (p\<lparr>abortEarly := False\<rparr>) n obj = Inl (e # rest)"
proof -
  let ?all = "fst (validate_object (p\<lparr>abortEarly := False\<rparr>) n perkSchema obj)"
  have c: "?all = concat (map (key_errors (p\<lparr>abortEarly := False\<rparr>) n obj) perkSchema) @
                  unknown_errors (p\<lparr>abortEarly := False\<rparr>) obj"
    by (rule validate_object_collect) simp
  have u: "unknown_errors (p\<lparr>abortEarly := True\<rparr>) obj = unknown_errors (p\<lparr>abortEarly := False\<rparr>) obj"
    by (simp add: unknown_errors_def)
  have "fst (validate_object (p\<lparr>abortEarly := True\<rparr>) n perkSchema obj) = take (Suc 0) ?all"
    unfolding c
    by (subst validate_object_abort)
       (auto simp: key_errors_abort first_errors_take1 u take1_append simp del: take_append)
  with assms have "errs \<noteq> []" "errs = take (Suc 0) ?all" by (auto simp: validate_Inl)
  then show ?thesis
    by (cases ?all) (auto simp: validate_Inl)
qed

subsection \<open>The keys of the schema, one by one\<close>

lemmas Joi_defs = Joi_any_def Joi_string_def Joi_number_def Joi_min_def Joi_max_def
  Joi_required_def Joi_forbidden_def Joi_allow_def Joi_valid_def Joi_default_def

lemmas item_defs = validate_item_def coerce_def base_validate_def rule_error_def
  measure_of_def type_name_def MAX_SAFE_INTEGER_def Let_def

lemma title_item:
  assumes "fst (validate_item p n ''title'' (Joi_required (Joi_min 2 Joi_string)) item) = []"
  shows "\<exists>t. item = Some (JStr t) \<and> 2 \<le> length t \<and>
     snd (validate_item p n ''title'' (Joi_required (Joi_min 2 Joi_string)) item) = item"
  using assms
  by (cases item; cases "the item")
     (auto simp: item_defs Joi_defs split: if_splits)

lemma string_item:
  assumes "fst (validate_item p n k (Joi_allow [JStr ''''] Joi_string) item) = []"
  shows "(item = None \<or> (\<exists>s. item = Some (JStr s))) \<and>
     snd (validate_item p n k (Joi_allow [JStr ''''] Joi_string) item) = item"
  using assms
  by (cases item; cases "the item")
     (auto simp: item_defs Joi_defs split: if_splits)

lemma category_item:
  assumes "fst (validate_item p n ''category''
             (Joi_default (JStr ''other'') (Joi_valid (map JStr categories) Joi_string)) item) = []"
  shows "\<exists>c. c \<in> set categories \<and>
     snd (validate_item p n ''category''
             (Joi_default (JStr ''other'') (Joi_valid (map JStr categories) Joi_string)) item) = Some (JStr c) \<and>
     (item = None \<and> c = ''other'' \<or> item = Some (JStr c))"
  using assms
  by (cases item; cases "the item")
     (auto simp: item_defs Joi_defs categories_def split: if_splits)

lemma discount_item:
  assumes "fst (validate_item p n ''discountPercent''
             (Joi_default (JNum 0) (Joi_max 100 (Joi_min 0 Joi_number))) item) = []"
  shows "\<exists>x. 0 \<le> x \<and> x \<le> 100 \<and>
     snd (validate_item p n ''discountPercent''
             (Joi_default (JNum 0) (Joi_max 100 (Joi_min 0 Joi_number))) item) = Some (JNum x) \<and>
     (item = None \<and> x = 0 \<or> item = Some (JNum x) \<or>
      (\<exists>str. item = Some (JStr str) \<and> convert p \<and> n str = Converted x))"
  using assms
  by (cases item; cases "the item")
     (auto simp: item_defs Joi_defs split: if_splits coercion.splits)


lemma key_value_ok:
  "key_errors p n obj (k, s) = [] \<Longrightarrow>
   key_value p n obj k s = snd (validate_item p n k s (lookup obj k))"
  by (cases "validate_item p n k s (lookup obj k)") (simp add: key_errors_def key_value_def)

lemma validated_key:
  assumes "validate p n obj = Inr validated" "(k, s) \<in> set perkSchema"
  shows "fst (validate_item p n k s (lookup obj k)) = [] \<and>
         lookup validated k = snd (validate_item p n k s (lookup obj k))"
proof -
  from validate_ok_key_errors [OF assms] have e: "key_errors p n obj (k, s) = []" .
  from assms(2) distinct_perkSchema have "map_of perkSchema k = Some s" by simp
  with validate_ok_lookup [OF assms(1), of k] key_value_ok [OF e] e
  show ?thesis by (simp add: key_errors_def)
qed

lemma validated_title:
  assumes "validate p n obj = Inr validated"
  shows "\<exists>t. lookup obj ''title'' = Some (JStr t) \<and> 2 \<le> length t \<and>
             lookup validated ''title'' = Some (JStr t)"
proof -
  have "(''title'', Joi_required (Joi_min 2 Joi_string)) \<in> set perkSchema"
    by (simp add: perkSchema_def)
  from validated_key [OF assms this] title_item show ?thesis by metis
qed

lemma validated_description:
  assumes "validate p n obj = Inr validated"
  shows "lookup validated ''description'' = lookup obj ''description'' \<and>
         (lookup obj ''description'' = None \<or> (\<exists>s. lookup obj ''description'' = Some (JStr s)))"
proof -
  have "(''description'', Joi_allow [JStr ''''] Joi_string) \<in> set perkSchema"
    by (simp add: perkSchema_def)
  from validated_key [OF assms this] string_item show ?thesis by metis
qed

lemma validated_merchant:
  assumes "validate p n obj = Inr validated"
  shows "lookup validated ''merchant'' = lookup obj ''merchant'' \<and>
         (lookup obj ''merchant'' = None \<or> (\<exists>s. lookup obj ''merchant'' = Some (JStr s)))"
proof -
  have "(''merchant'', Joi_allow [JStr ''''] Joi_string) \<in> set perkSchema"
    by (simp add: perkSchema_def)
  from validated_key [OF assms this] string_item show ?thesis by metis
qed

lemma validated_category:
  assumes "validate p n obj = Inr validated"
  shows "\<exists>c. c \<in> set categories \<and> lookup validated ''category'' = Some (JStr c) \<and>
             (lookup obj ''category'' = None \<and> c = ''other'' \<or>
              lookup obj ''category'' = Some (JStr c))"
proof -
  have "(''category'', Joi_default (JStr ''other'') (Joi_valid (map JStr categories) Joi_string))
          \<in> set perkSchema"
    by (simp add: perkSchema_def)
  from validated_key [OF assms this] category_item show ?thesis by metis
qed

lemma validated_discountPercent:
  assumes "validate p n obj = Inr validated"
  shows "\<exists>x. 0 \<le> x \<and> x \<le> 100 \<and> lookup validated ''discountPercent'' = Some (JNum x) \<and>
             (lookup obj ''discountPercent'' = None \<and> x = 0 \<or>
              lookup obj ''discountPercent'' = Some (JNum x) \<or>
              (\<exists>str. lookup obj ''discountPercent'' = Some (JStr str) \<and> convert p \<and>
                     n str = Converted x))"
proof -
  have "(''discountPercent'', Joi_default (JNum 0) (Joi_max 100 (Joi_min 0 Joi_number)))
          \<in> set perkSchema"
    by (simp add: perkSchema_def)
  from validated_key [OF assms this] discount_item show ?thesis by metis
qed

lemma validated_unknown_stripped:
  assumes "validate p n obj = Inr validated" "stripUnknown p" "k \<notin> set (map fst perkSchema)"
  shows "lookup validated k = None"
proof -
  from assms(3) have "map_of perkSchema k = None" by (simp add: map_of_eq_None_iff)
  with validate_ok_lookup [OF assms(1), of k] assms(2) show ?thesis by simp
qed

lemma validated_no_unknown:
  assumes "validate p n obj = Inr validated" "\<not> stripUnknown p" "\<not> allowUnknown p"
    "k \<notin> set (map fst perkSchema)"
  shows "lookup obj k = None \<and> lookup validated k = None"
proof -
  have "unknown_errors p obj = []"
  proof (cases "abortEarly p")
    case True
    from assms(1) validate_object_abort [OF True, of n obj]
    have "take (Suc 0) (unknown_errors p obj) = []"
      by (auto simp: validate_Inr split: if_splits)
    then show ?thesis by (cases "unknown_errors p obj") auto
  next
    case False
    from assms(1) validate_object_collect [OF False, of n obj]
    show ?thesis by (auto simp: validate_Inr)
  qed
  with assms(2,3,4) have "k \<notin> set (obj_keys obj)"
    by (auto simp: unknown_errors_def filter_empty_conv)
  then have 1: "lookup obj k = None" by (simp add: lookup_None_iff)
  from assms(4) have "map_of perkSchema k = None" by (simp add: map_of_eq_None_iff)
  with validate_ok_lookup [OF assms(1), of k] assms(2) 1 show ?thesis by simp
qed

lemma set_paths_Inr:
  assumes "lookup obj ''title'' = Some (JStr t)"
    and "lookup obj ''description'' = None \<or> (\<exists>s. lookup obj ''description'' = Some (JStr s))"
    and "lookup obj ''category'' = Some (JStr c)"
    and "lookup obj ''discountPercent'' = Some (JNum x)"
    and "lookup obj ''merchant'' = None \<or> (\<exists>s. lookup obj ''merchant'' = Some (JStr s))"
    and "lookup obj ''createdBy'' = None \<or> (\<exists>s. lookup obj ''createdBy'' = Some (JStr s))"
  shows "set_paths q obj =
     Inr (q\<lparr>title := t,
            description := (case lookup obj ''description'' of Some (JStr s) \<Rightarrow> Some s | _ \<Rightarrow> description q),
            category := c,
            discountPercent := x,
            merchant := (case lookup obj ''merchant'' of Some (JStr s) \<Rightarrow> Some s | _ \<Rightarrow> merchant q),
            createdBy := (case lookup obj ''createdBy'' of Some (JStr s) \<Rightarrow> CreatorKey s | _ \<Rightarrow> createdBy q)\<rparr>)"
  using assms by (auto simp: set_paths_def cast_string_def cast_number_def)

subsection \<open>Preferences and stored documents\<close>

lemma create_prefs_simps:
  "abortEarly create_prefs" "\<not> stripUnknown create_prefs" "\<not> allowUnknown create_prefs"
  "convert create_prefs"
  by (simp_all add: create_prefs_def)

lemma update_prefs_simps:
  "\<not> abortEarly update_prefs" "stripUnknown update_prefs" "convert update_prefs"
  by (simp_all add: update_prefs_def create_prefs_def)

lemma createdBy_unknown: "''createdBy'' \<notin> set (map fst perkSchema)"
  by (simp add: perkSchema_def)

lemma lookup_toObject:
  "lookup (toObject p) ''title'' = Some (JStr (title p))"
  "lookup (toObject p) ''description'' = map_option JStr (description p)"
  "lookup (toObject p) ''category'' = Some (JStr (category p))"
  "lookup (toObject p) ''discountPercent'' = Some (JNum (discountPercent p))"
  "lookup (toObject p) ''merchant'' = map_option JStr (merchant p)"
  by (auto simp: toObject_def lookup_def map_add_def map_of_append
      split: option.splits creator.splits)

subsection \<open>The maps of the resolution\<close>







section \<open>The claims of the specification\<close>

subsection \<open>C1: the creators in the public list\<close>




subsection \<open>C2: a creator given by name\<close>

text \<open>
  C2 does not hold of the code. A perk whose \<^verbatim>\<open>createdBy\<close> is the name of a user is
  looked up by that name, but the user that is found is filed in the map under the
  lower-cased email, so the second loop does not find the name and sets \<^verbatim>\<open>createdBy\<close>
  to null. Here the user \<^verbatim>\<open>bob\<close> has the email \<^verbatim>\<open>bob@example.com\<close>, the key
  \<^verbatim>\<open>bob\<close> is not a valid identifier and has no at sign, and the perk comes back
  without its creator.
\<close>

theorem public_list_name_key_unresolved:
  "createdBy gym = CreatorKey ''bob'' \<and> name bob = ''bob'' \<and>
   \<not> isValid sample_env ''bob'' \<and> CHR ''@'' \<notin> set ''bob'' \<and>
   getAllPerksPublic sample_env None None [bob] [gym] =
     Respond 200 (Perks [gym\<lparr>createdBy := NoCreator\<rparr>])"
  by code_simp

subsection \<open>C3: a discount out of range\<close>




subsection \<open>C4: a payload that sets the owner\<close>

text \<open>
  C4 holds of the creation handler: the schema does not know the key \<^verbatim>\<open>createdBy\<close>
  (it forbids \<^verbatim>\<open>ccreatedBy\<close>), and an unknown key is an error there.
\<close>

lemma createPerk_rejects_createdBy:
  assumes "lookup req_body ''createdBy'' \<noteq> None"
  shows "\<exists>errs. createPerk E req_body req_user db = (Respond 400 (ValidationMessage errs), db)"
proof (cases "validate create_prefs (numberOf E) req_body")
  case (Inl errs)
  then show ?thesis by (simp add: createPerk_def)
next
  case (Inr validated)
  from validated_no_unknown [OF Inr _ _ createdBy_unknown] assms show ?thesis
    by (simp add: create_prefs_simps)
qed

text \<open>
  C4 does not hold of the update handler. With \<open>stripUnknown\<close> the key
  \<^verbatim>\<open>createdBy\<close> of the payload is deleted without an error: an update that carries
  only another owner is answered with 200 and the unchanged perk, not with 400.
\<close>

theorem updatePerk_createdBy_silently_dropped:
  "updatePerk sample_env ''65f0a1b2c3d4e5f600000001''
     [(''createdBy'', JStr ''65f0a1b2c3d4e5f6000000bb'')] [coffee] =
     (Respond 200 (OnePerk coffee), [coffee])"
  by code_simp

subsection \<open>C5: what creation stores\<close>

text \<open>
  C5. For every creation payload that passes validation, the validated payload has a
  category among the five of the enum, which is \<^verbatim>\<open>other\<close> when the payload has none,
  and a discount between 0 and 100, which is 0 when the payload has none. It carries no
  \<^verbatim>\<open>createdBy\<close>, since a payload with one does not pass. For every caller, the
  handler hands the store the validated payload with the caller's identity as
  \<^verbatim>\<open>createdBy\<close>; the document made of it has that category, that discount and the
  caller as owner, and unless the server refuses the insert the handler answers 201 with
  this document, which is stored last in the collection.
\<close>

theorem createPerk_stored_perk:
  assumes "validate create_prefs (numberOf E) req_body = Inr validated"
  shows "\<exists>c x.
     c \<in> set categories \<and> 0 \<le> x \<and> x \<le> 100 \<and>
     lookup validated ''category'' = Some (JStr c) \<and>
     (lookup req_body ''category'' = None \<longrightarrow> c = ''other'') \<and>
     lookup validated ''discountPercent'' = Some (JNum x) \<and>
     (lookup req_body ''discountPercent'' = None \<longrightarrow> x = 0) \<and>
     lookup req_body ''createdBy'' = None \<and> lookup validated ''createdBy'' = None \<and>
     (\<forall>uid. \<exists>doc.
        set_paths (blank_perk (newId E) (now E)) (assign validated ''createdBy'' (JStr uid))
          = Inr doc \<and>
        category doc = c \<and> discountPercent doc = x \<and> createdBy doc = CreatorKey uid \<and>
        createPerk E req_body (Some uid) db =
          (case insertFault E doc db of
             None \<Rightarrow> (Respond 201 (OnePerk doc), db @ [doc])
           | Some e \<Rightarrow>
               (if e = MongoServerError 11000
                then Respond 409 (Message ''Duplicate perk for this merchant'')
                else Next e, db)))"
proof -
  note v = assms
  from validated_title [OF v] obtain t where
    t: "lookup validated ''title'' = Some (JStr t)" "2 \<le> length t"
    by auto
  from validated_category [OF v] obtain c where
    c: "c \<in> set categories" "lookup validated ''category'' = Some (JStr c)"
      "lookup req_body ''category'' = None \<longrightarrow> c = ''other''"
    by auto
  from validated_discountPercent [OF v] obtain x where
    x: "0 \<le> x" "x \<le> 100" "lookup validated ''discountPercent'' = Some (JNum x)"
      "lookup req_body ''discountPercent'' = None \<longrightarrow> x = 0"
    by auto
  from validated_description [OF v]
  have d: "lookup validated ''description'' = None \<or>
           (\<exists>s. lookup validated ''description'' = Some (JStr s))"
    by auto
  from validated_merchant [OF v]
  have m: "lookup validated ''merchant'' = None \<or>
           (\<exists>s. lookup validated ''merchant'' = Some (JStr s))"
    by auto
  from validated_no_unknown [OF v _ _ createdBy_unknown]
  have nb: "lookup req_body ''createdBy'' = None" "lookup validated ''createdBy'' = None"
    by (simp_all add: create_prefs_simps)
  have per_uid: "\<exists>doc.
        set_paths (blank_perk (newId E) (now E)) (assign validated ''createdBy'' (JStr uid))
          = Inr doc \<and>
        category doc = c \<and> discountPercent doc = x \<and> createdBy doc = CreatorKey uid \<and>
        createPerk E req_body (Some uid) db =
          (case insertFault E doc db of
             None \<Rightarrow> (Respond 201 (OnePerk doc), db @ [doc])
           | Some e \<Rightarrow>
               (if e = MongoServerError 11000
                then Respond 409 (Message ''Duplicate perk for this merchant'')
                else Next e, db))" for uid
  proof -
    let ?obj = "assign validated ''createdBy'' (JStr uid)"
    let ?q = "blank_perk (newId E) (now E)"
    have l: "lookup ?obj ''title'' = Some (JStr t)"
      "lookup ?obj ''description'' = None \<or> (\<exists>s. lookup ?obj ''description'' = Some (JStr s))"
      "lookup ?obj ''category'' = Some (JStr c)"
      "lookup ?obj ''discountPercent'' = Some (JNum x)"
      "lookup ?obj ''merchant'' = None \<or> (\<exists>s. lookup ?obj ''merchant'' = Some (JStr s))"
      "lookup ?obj ''createdBy'' = None \<or> (\<exists>s. lookup ?obj ''createdBy'' = Some (JStr s))"
      using t c x d m by (simp_all add: lookup_assign)
    from set_paths_Inr [OF l, of ?q] obtain doc where
      sp: "set_paths ?q ?obj = Inr doc"
      and f: "title doc = t" "category doc = c" "discountPercent doc = x"
        "createdBy doc = CreatorKey uid"
      by (simp add: lookup_assign)
    from f t c x have pv: "perk_validators doc" by (simp add: perk_validators_def)
    have "createPerk E req_body (Some uid) db =
          (case insertFault E doc db of
             None \<Rightarrow> (Respond 201 (OnePerk doc), db @ [doc])
           | Some e \<Rightarrow>
               (if e = MongoServerError 11000
                then Respond 409 (Message ''Duplicate perk for this merchant'')
                else Next e, db))"
    proof (cases "insertFault E doc db")
      case None
      with v sp pv show ?thesis by (simp add: createPerk_def Perk_create_def)
    next
      case (Some e)
      with v sp pv show ?thesis
        by (cases e) (simp_all add: createPerk_def Perk_create_def err_code_def)
    qed
    with sp f show ?thesis by blast
  qed
  show ?thesis
  proof (intro exI [of _ c] exI [of _ x] conjI allI)
    fix uid
    show "\<exists>doc.
        set_paths (blank_perk (newId E) (now E)) (assign validated ''createdBy'' (JStr uid))
          = Inr doc \<and>
        category doc = c \<and> discountPercent doc = x \<and> createdBy doc = CreatorKey uid \<and>
        createPerk E req_body (Some uid) db =
          (case insertFault E doc db of
             None \<Rightarrow> (Respond 201 (OnePerk doc), db @ [doc])
           | Some e \<Rightarrow>
               (if e = MongoServerError 11000
                then Respond 409 (Message ''Duplicate perk for this merchant'')
                else Next e, db))"
      by (rule per_uid)
  qed (use c x nb in simp_all)
qed

text \<open>
  The theorem of C5 at a payload without a category whose discount is written as a
  string: it passes validation, and the perk is stored with the category \<^verbatim>\<open>other\<close>,
  the discount 25 and the caller as owner.
\<close>

theorem createPerk_stored_perk_witness:
  "validate create_prefs (numberOf sample_env)
     [(''title'', JStr ''Gym Pass''), (''discountPercent'', JStr ''25'')] =
     Inr [(''title'', JStr ''Gym Pass''), (''discountPercent'', JNum 25),
          (''category'', JStr ''other'')] \<and>
   createPerk sample_env
     [(''title'', JStr ''Gym Pass''), (''discountPercent'', JStr ''25'')]
     (Some ''65f0a1b2c3d4e5f6000000aa'') [coffee] =
     (Respond 201 (OnePerk
        \<lparr>perk_id = ''65f0a1b2c3d4e5f600000002'', title = ''Gym Pass'', description = None,
         category = ''other'', discountPercent = 25, merchant = None,
         createdBy = CreatorKey ''65f0a1b2c3d4e5f6000000aa'', createdAt = 1700\<rparr>),
      [coffee,
        \<lparr>perk_id = ''65f0a1b2c3d4e5f600000002'', title = ''Gym Pass'', description = None,
         category = ''other'', discountPercent = 25, merchant = None,
         createdBy = CreatorKey ''65f0a1b2c3d4e5f6000000aa'', createdAt = 1700\<rparr>])"
proof -
  let ?body = "[(''title'', JStr ''Gym Pass''), (''discountPercent'', JStr ''25'')]"
  let ?v = "[(''title'', JStr ''Gym Pass''), (''discountPercent'', JNum 25),
             (''category'', JStr ''other'')]"
  let ?doc = "\<lparr>perk_id = ''65f0a1b2c3d4e5f600000002'', title = ''Gym Pass'', description = None,
         category = ''other'', discountPercent = 25, merchant = None,
         createdBy = CreatorKey ''65f0a1b2c3d4e5f6000000aa'', createdAt = 1700\<rparr>"
  have 1: "validate create_prefs (numberOf sample_env) ?body = Inr ?v"
    by code_simp
  have 2: "set_paths (blank_perk (newId sample_env) (now sample_env))
             (assign ?v ''createdBy'' (JStr ''65f0a1b2c3d4e5f6000000aa'')) = Inr ?doc"
    by code_simp
  have 3: "insertFault sample_env ?doc [coffee] = None"
    by code_simp
  from createPerk_stored_perk [OF 1, of "[coffee]"] obtain doc where
    "set_paths (blank_perk (newId sample_env) (now sample_env))
       (assign ?v ''createdBy'' (JStr ''65f0a1b2c3d4e5f6000000aa'')) = Inr doc"
    and "createPerk sample_env ?body (Some ''65f0a1b2c3d4e5f6000000aa'') [coffee] =
          (case insertFault sample_env doc [coffee] of
             None \<Rightarrow> (Respond 201 (OnePerk doc), [coffee] @ [doc])
           | Some e \<Rightarrow>
               (if e = MongoServerError 11000
                then Respond 409 (Message ''Duplicate perk for this merchant'')
                else Next e, [coffee]))"
    by blast
  with 1 2 3 show ?thesis by simp
qed

subsection \<open>C6: what an update changes\<close>

text \<open>
  C6. For every stored perk and every payload such that the merged document passes the
  update validation, the update handler answers 200 with the updated document, which
  replaces the stored one. Identifier, owner and creation time are those of the stored
  perk, and so is every field of the schema that the payload does not carry. In
  particular, after an update with only \<^verbatim>\<open>{discountPercent: 50}\<close> the perk is the
  stored one with the discount 50.
\<close>

theorem updatePerk_frame:
  assumes "isValid E i"
    and "find (\<lambda>p. perk_id p = i) db = Some existing"
    and "validate update_prefs (numberOf E) (spread (toObject existing) req_body) = Inr validated"
  shows "\<exists>doc. updatePerk E i req_body db = (Respond 200 (OnePerk doc), replace_first i doc db) \<and>
           perk_id doc = perk_id existing \<and> createdBy doc = createdBy existing \<and>
           createdAt doc = createdAt existing \<and>
           (''title'' \<notin> set (obj_keys req_body) \<longrightarrow> title doc = title existing) \<and>
           (''description'' \<notin> set (obj_keys req_body) \<longrightarrow> description doc = description existing) \<and>
           (''category'' \<notin> set (obj_keys req_body) \<longrightarrow> category doc = category existing) \<and>
           (''discountPercent'' \<notin> set (obj_keys req_body) \<longrightarrow>
              discountPercent doc = discountPercent existing) \<and>
           (''merchant'' \<notin> set (obj_keys req_body) \<longrightarrow> merchant doc = merchant existing) \<and>
           (req_body = [(''discountPercent'', JNum 50)] \<longrightarrow>
              doc = existing\<lparr>discountPercent := 50\<rparr>)"
proof -
  let ?merged = "spread (toObject existing) req_body"
  note v = assms(3)
  from validated_title [OF v] obtain t where
    t: "lookup ?merged ''title'' = Some (JStr t)" "2 \<le> length t"
       "lookup validated ''title'' = Some (JStr t)"
    by auto
  from validated_category [OF v] obtain c where
    c: "c \<in> set categories" "lookup validated ''category'' = Some (JStr c)"
       "lookup ?merged ''category'' = None \<or> lookup ?merged ''category'' = Some (JStr c)"
    by auto
  from validated_discountPercent [OF v] obtain x where
    x: "0 \<le> x" "x \<le> 100" "lookup validated ''discountPercent'' = Some (JNum x)"
       "lookup ?merged ''discountPercent'' = None \<or>
        lookup ?merged ''discountPercent'' = Some (JNum x) \<or>
        (\<exists>str. lookup ?merged ''discountPercent'' = Some (JStr str))"
    by auto
  from validated_description [OF v]
  have d: "lookup validated ''description'' = lookup ?merged ''description''"
    "lookup validated ''description'' = None \<or> (\<exists>s. lookup validated ''description'' = Some (JStr s))"
    by auto
  from validated_merchant [OF v]
  have m: "lookup validated ''merchant'' = lookup ?merged ''merchant''"
    "lookup validated ''merchant'' = None \<or> (\<exists>s. lookup validated ''merchant'' = Some (JStr s))"
    by auto
  from validated_unknown_stripped [OF v update_prefs_simps(2) createdBy_unknown]
  have cb: "lookup validated ''createdBy'' = None" .
  define doc where "doc = existing\<lparr>title := t,
      description := (case lookup validated ''description'' of Some (JStr s) \<Rightarrow> Some s
                      | _ \<Rightarrow> description existing),
      category := c, discountPercent := x,
      merchant := (case lookup validated ''merchant'' of Some (JStr s) \<Rightarrow> Some s
                   | _ \<Rightarrow> merchant existing)\<rparr>"
  from set_paths_Inr [OF t(3) d(2) c(2) x(3) m(2), of existing] cb
  have sp: "set_paths existing validated = Inr doc"
    by (simp add: doc_def)
  from t c x have pv: "perk_validators doc"
    by (simp add: perk_validators_def doc_def)
  from assms(1,2) v sp pv
  have r: "updatePerk E i req_body db = (Respond 200 (OnePerk doc), replace_first i doc db)"
    by (simp add: updatePerk_def Perk_findById_def Perk_findByIdAndUpdate_def)
  have f0: "perk_id doc = perk_id existing" "createdBy doc = createdBy existing"
    "createdAt doc = createdAt existing"
    by (simp_all add: doc_def)
  have f1: "title doc = title existing" if "''title'' \<notin> set (obj_keys req_body)"
    using that t(1) by (simp add: lookup_spread lookup_toObject doc_def)
  have f2: "description doc = description existing"
    if "''description'' \<notin> set (obj_keys req_body)"
    using that d(1) by (cases "description existing") (simp_all add: lookup_spread lookup_toObject doc_def)
  have f3: "category doc = category existing" if "''category'' \<notin> set (obj_keys req_body)"
    using that c(3) by (simp add: lookup_spread lookup_toObject doc_def)
  have f4: "discountPercent doc = discountPercent existing"
    if "''discountPercent'' \<notin> set (obj_keys req_body)"
    using that x(4) by (simp add: lookup_spread lookup_toObject doc_def)
  have f5: "merchant doc = merchant existing" if "''merchant'' \<notin> set (obj_keys req_body)"
    using that m(1) by (cases "merchant existing") (simp_all add: lookup_spread lookup_toObject doc_def)
  have f6: "doc = existing\<lparr>discountPercent := 50\<rparr>"
    if b: "req_body = [(''discountPercent'', JNum 50)]"
  proof -
    from b have k: "''title'' \<notin> set (obj_keys req_body)"
      "''description'' \<notin> set (obj_keys req_body)" "''category'' \<notin> set (obj_keys req_body)"
      "''merchant'' \<notin> set (obj_keys req_body)"
      by (simp_all add: obj_keys_def)
    from b have "lookup ?merged ''discountPercent'' = Some (JNum 50)"
      by (simp add: spread_def lookup_assign)
    with x(4) have "x = 50" by auto
    then have "discountPercent doc = 50" by (simp add: doc_def)
    with f0 f1 [OF k(1)] f2 [OF k(2)] f3 [OF k(3)] f5 [OF k(4)] show ?thesis
      by (intro perk.equality) simp_all
  qed
  from r f0 f1 f2 f3 f4 f5 f6 show ?thesis by blast
qed

text \<open>The theorem of C6 at the update \<^verbatim>\<open>{discountPercent: 50}\<close> of a stored perk.\<close>

theorem updatePerk_frame_witness:
  "updatePerk sample_env ''65f0a1b2c3d4e5f600000001'' [(''discountPercent'', JNum 50)] [gym, coffee] =
     (Respond 200 (OnePerk (coffee\<lparr>discountPercent := 50\<rparr>)),
      [gym, coffee\<lparr>discountPercent := 50\<rparr>])"
proof -
  let ?body = "[(''discountPercent'', JNum 50)]"
  have 1: "isValid sample_env ''65f0a1b2c3d4e5f600000001''"
    by (simp add: sample_env_def hex24_def)
  have 2: "find (\<lambda>p. perk_id p = ''65f0a1b2c3d4e5f600000001'') [gym, coffee] = Some coffee"
    by (simp add: gym_def coffee_def)
  have 3: "validate update_prefs (numberOf sample_env) (spread (toObject coffee) ?body) =
     Inr [(''title'', JStr ''Coffee Club''), (''description'', JStr ''Free refill''),
          (''category'', JStr ''food''), (''discountPercent'', JNum 50),
          (''merchant'', JStr ''Acme'')]"
    by code_simp
  from updatePerk_frame [OF 1 2 3] show ?thesis
    by (auto simp: gym_def coffee_def)
qed

subsection \<open>C7: how many errors a failed validation reports\<close>

text \<open>
  C7. When the update handler answers 400, the errors it reports are the errors of all the
  keys of the schema on the merged document, in the order of the schema: every key that
  is violated is reported. When the creation handler answers 400, it reports one error,
  the first of those that a validation collecting all errors would report.
\<close>

theorem validation_errors_reported:
  "(updatePerk E i req_body db = (Respond 400 (ValidationMessage errs), db') \<longrightarrow>
      (\<exists>existing. find (\<lambda>p. perk_id p = i) db = Some existing \<and>
         errs = concat (map (key_errors update_prefs (numberOf E)
                               (spread (toObject existing) req_body)) perkSchema) \<and>
         (\<forall>ks \<in> set perkSchema.
            set (key_errors update_prefs (numberOf E) (spread (toObject existing) req_body) ks)
              \<subseteq> set errs))) \<and>
   (createPerk E req_body' req_user db = (Respond 400 (ValidationMessage errs'), db'') \<longrightarrow>
      (\<exists>e rest. errs' = [e] \<and>
         validate (create_prefs\<lparr>abortEarly := False\<rparr>) (numberOf E) req_body' = Inl (e # rest)))"
proof (intro conjI impI)
  assume "updatePerk E i req_body db = (Respond 400 (ValidationMessage errs), db')"
  then obtain existing where
    f: "find (\<lambda>p. perk_id p = i) db = Some existing"
    and v: "validate update_prefs (numberOf E) (spread (toObject existing) req_body) = Inl errs"
    by (auto simp: updatePerk_def Perk_findById_def Let_def
        split: sum.splits option.splits if_splits prod.splits)
  let ?obj = "spread (toObject existing) req_body"
  from v validate_object_collect [OF update_prefs_simps(1), of "numberOf E" ?obj]
  have e: "errs = concat (map (key_errors update_prefs (numberOf E) ?obj) perkSchema)"
    by (simp add: validate_Inl unknown_errors_def update_prefs_simps)
  then have "\<forall>ks \<in> set perkSchema. set (key_errors update_prefs (numberOf E) ?obj ks) \<subseteq> set errs"
    by auto
  with f e show "\<exists>existing. find (\<lambda>p. perk_id p = i) db = Some existing \<and>
         errs = concat (map (key_errors update_prefs (numberOf E)
                               (spread (toObject existing) req_body)) perkSchema) \<and>
         (\<forall>ks \<in> set perkSchema.
            set (key_errors update_prefs (numberOf E) (spread (toObject existing) req_body) ks)
              \<subseteq> set errs)"
    by blast
next
  assume "createPerk E req_body' req_user db = (Respond 400 (ValidationMessage errs'), db'')"
  then have "validate create_prefs (numberOf E) req_body' = Inl errs'"
    by (auto simp: createPerk_def split: sum.splits option.splits if_splits prod.splits)
  moreover have "create_prefs = create_prefs\<lparr>abortEarly := True\<rparr>"
    by (simp add: create_prefs_def)
  ultimately have "validate (create_prefs\<lparr>abortEarly := True\<rparr>) (numberOf E) req_body' = Inl errs'"
    by simp
  from validate_first_of_all [OF this]
  show "\<exists>e rest. errs' = [e] \<and>
         validate (create_prefs\<lparr>abortEarly := False\<rparr>) (numberOf E) req_body' = Inl (e # rest)" .
qed

text \<open>
  The theorem of C7 at a payload that violates three keys: the update reports the three,
  the creation only the first.
\<close>

theorem validation_errors_reported_witness:
  "updatePerk sample_env ''65f0a1b2c3d4e5f600000001'' bad_body [coffee] =
     (Respond 400 (ValidationMessage
        [VError ''title'' ''string.empty'', VError ''category'' ''any.only'',
         VError ''discountPercent'' ''number.max'']), [coffee]) \<and>
   createPerk sample_env bad_body (Some ''65f0a1b2c3d4e5f6000000aa'') [coffee] =
     (Respond 400 (ValidationMessage [VError ''title'' ''string.empty'']), [coffee]) \<and>
   (\<exists>rest. validate (create_prefs\<lparr>abortEarly := False\<rparr>) (numberOf sample_env) bad_body =
      Inl (VError ''title'' ''string.empty'' # rest)) \<and>
   [VError ''title'' ''string.empty'', VError ''category'' ''any.only'',
    VError ''discountPercent'' ''number.max''] =
     concat (map (key_errors update_prefs (numberOf sample_env)
                    (spread (toObject coffee) bad_body)) perkSchema)"
proof -
  let ?all = "[VError ''title'' ''string.empty'', VError ''category'' ''any.only'',
               VError ''discountPercent'' ''number.max'']"
  have 1: "updatePerk sample_env ''65f0a1b2c3d4e5f600000001'' bad_body [coffee] =
     (Respond 400 (ValidationMessage ?all), [coffee])"
    by code_simp
  have 2: "createPerk sample_env bad_body (Some ''65f0a1b2c3d4e5f6000000aa'') [coffee] =
     (Respond 400 (ValidationMessage [VError ''title'' ''string.empty'']), [coffee])"
    by code_simp
  have 3: "find (\<lambda>p. perk_id p = ''65f0a1b2c3d4e5f600000001'') [coffee] = Some coffee"
    by (simp add: coffee_def)
  from validation_errors_reported
         [of sample_env "''65f0a1b2c3d4e5f600000001''" bad_body "[coffee]" ?all "[coffee]"
             bad_body "Some ''65f0a1b2c3d4e5f6000000aa''" "[VError ''title'' ''string.empty'']"
             "[coffee]"] 1 2 3
  show ?thesis by auto
qed

subsection \<open>C8: filter by title\<close>

text \<open>
  C8, as the code has it. The handler tests \<^verbatim>\<open>if (title)\<close>, so it answers 400 when
  the parameter is absent and also when it is the empty string. For every other title it
  answers 200 with exactly the perks of the collection whose title is that string (each
  as often as the collection has it), the newest first.
\<close>

theorem filterPerks_exact_title:
  "filterPerks None db = Respond 400 (Message ''Title query parameter is required'') \<and>
   filterPerks (Some []) db = Respond 400 (Message ''Title query parameter is required'') \<and>
   (t \<noteq> [] \<longrightarrow>
     (\<exists>ps. filterPerks (Some t) db = Respond 200 (PerkArray ps) \<and>
           mset ps = filter_mset (\<lambda>p. title p = t) (mset db) \<and>
           sorted_wrt (\<lambda>a b. createdAt a \<ge> createdAt b) ps))"
proof -
  let ?ps = "sort_newest_first (Perk_find (\<lambda>p. Some (title p) = Some t) db)"
  have m: "mset ?ps = filter_mset (\<lambda>p. title p = t) (mset db)"
    by (simp add: sort_newest_first_def Perk_find_def)
  have "sorted (map (\<lambda>p. - createdAt p) ?ps)"
    unfolding sort_newest_first_def by (rule sorted_sort_key)
  then have s: "sorted_wrt (\<lambda>a b. createdAt a \<ge> createdAt b) ?ps"
    by (simp add: sorted_map sorted_wrt_iff_nth_less)
  show ?thesis using m s by (simp add: filterPerks_def truthy_def)
qed

text \<open>
  C8 as stated fails for a title that is present and empty: the answer is 400, not the
  list of the perks with that title.
\<close>

theorem filterPerks_empty_title_counterexample:
  "filterPerks (Some '''') [coffee] = Respond 400 (Message ''Title query parameter is required'')"
  by (simp add: filterPerks_def truthy_def)

text \<open>The theorem of C8 on a collection of three perks, two of them with the title asked for.\<close>

theorem filterPerks_exact_title_witness:
  "''Coffee Club'' \<noteq> [] \<and>
   (\<exists>ps. filterPerks (Some ''Coffee Club'') [coffee, gym, latte] = Respond 200 (PerkArray ps) \<and>
         mset ps = filter_mset (\<lambda>p. title p = ''Coffee Club'') (mset [coffee, gym, latte]) \<and>
         sorted_wrt (\<lambda>a b. createdAt a \<ge> createdAt b) ps) \<and>
   filterPerks (Some ''Coffee Club'') [coffee, gym, latte] = Respond 200 (PerkArray [latte, coffee])"
proof -
  have 1: "''Coffee Club'' \<noteq> []" by simp
  have 2: "filterPerks (Some ''Coffee Club'') [coffee, gym, latte] =
             Respond 200 (PerkArray [latte, coffee])"
    by (simp add: filterPerks_def truthy_def Perk_find_def sort_newest_first_def
          coffee_def gym_def latte_def)
  from filterPerks_exact_title [of "[coffee, gym, latte]" "''Coffee Club''"] 1 2
  show ?thesis by blast
qed

subsection \<open>C9: errors of the store on creation\<close>

text \<open>
  C9. When the payload has passed validation and the store's create fails with an error
  \<open>e\<close>, the creation handler answers 409 when \<open>e\<close> is the duplicate key error (code
  11000) and passes every other error on to the generic error handler; the collection is
  as it was.
\<close>

theorem createPerk_store_errors:
  assumes "validate create_prefs (numberOf E) req_body = Inr validated"
    and "Perk_create E (assign validated ''createdBy'' (JStr uid)) db = Inl e"
  shows "createPerk E req_body (Some uid) db =
           (if e = MongoServerError 11000
            then Respond 409 (Message ''Duplicate perk for this merchant'')
            else Next e, db)"
  using assms by (cases e) (simp_all add: createPerk_def err_code_def)

text \<open>
  The theorem of C9 at a duplicate of a stored perk, and in an environment whose server
  raises another error.
\<close>

theorem createPerk_store_errors_witness:
  "createPerk sample_env [(''title'', JStr ''Coffee Club''), (''merchant'', JStr ''Acme'')]
     (Some ''65f0a1b2c3d4e5f6000000aa'') [coffee] =
     (Respond 409 (Message ''Duplicate perk for this merchant''), [coffee]) \<and>
   createPerk unreachable_env [(''title'', JStr ''Coffee Club''), (''merchant'', JStr ''Acme'')]
     (Some ''65f0a1b2c3d4e5f6000000aa'') [coffee] = (Next (MongoServerError 89), [coffee])"
proof -
  let ?body = "[(''title'', JStr ''Coffee Club''), (''merchant'', JStr ''Acme'')]"
  let ?v = "[(''title'', JStr ''Coffee Club''), (''merchant'', JStr ''Acme''),
             (''category'', JStr ''other''), (''discountPercent'', JNum 0)]"
  have v: "validate create_prefs decimal ?body = Inr ?v"
    by code_simp
  have n: "numberOf sample_env = decimal" "numberOf unreachable_env = decimal"
    by (simp_all add: sample_env_def unreachable_env_def)
  have 1: "Perk_create sample_env (assign ?v ''createdBy'' (JStr ''65f0a1b2c3d4e5f6000000aa''))
             [coffee] = Inl (MongoServerError 11000)"
    by code_simp
  have 2: "Perk_create unreachable_env (assign ?v ''createdBy'' (JStr ''65f0a1b2c3d4e5f6000000aa''))
             [coffee] = Inl (MongoServerError 89)"
    by code_simp
  from createPerk_store_errors [of sample_env ?body ?v _ "[coffee]", OF _ 1]
       createPerk_store_errors [of unreachable_env ?body ?v _ "[coffee]", OF _ 2] v n
  show ?thesis by simp
qed

subsection \<open>C10: an identifier that is not valid\<close>

text \<open>
  C10. For an identifier that is not syntactically valid, the lookup of the store raises
  a cast error, and get-by-id, update and delete pass it to the generic error handler:
  none of them answers 404, and the collection is as it was.
\<close>

theorem invalid_id_is_cast_error:
  "\<not> isValid E i \<Longrightarrow>
     getPerk E i db = Next CastError \<and>
     updatePerk E i req_body db = (Next CastError, db) \<and>
     deletePerk E i db = (Next CastError, db)"
  by (simp add: getPerk_def updatePerk_def deletePerk_def Perk_findById_def
        Perk_findByIdAndDelete_def)

text \<open>The theorem of C10 at the identifier \<^verbatim>\<open>42\<close>.\<close>

theorem invalid_id_is_cast_error_witness:
  "\<not> isValid sample_env ''42'' \<and>
   getPerk sample_env ''42'' [coffee] = Next CastError \<and>
   updatePerk sample_env ''42'' [(''discountPercent'', JNum 50)] [coffee] = (Next CastError, [coffee]) \<and>
   deletePerk sample_env ''42'' [coffee] = (Next CastError, [coffee])"
proof -
  have 1: "\<not> isValid sample_env ''42''" by (simp add: sample_env_def hex24_def)
  from invalid_id_is_cast_error [OF 1] 1 show ?thesis by simp
qed

end
